theory Spec2Isabelle
  imports Complex_Main "HOL-Library.Char_ord" "HOL-Library.List_Lexorder"
begin

section \<open>Python values shared by both modules\<close>

text \<open>
  Exceptions are values. \<open>KeyboardInterrupt\<close> and \<open>SystemExit\<close> derive from
  \<open>BaseException\<close> only, so an \<open>except Exception\<close> clause does not catch them.
\<close>

datatype py_error =
    ValueError string
  | FileNotFoundError string
  | RuntimeError string
  | KeyError string
  | IndexError string
  | AttributeError string
  | HfHubHTTPError string
  | OtherException string
  | KeyboardInterrupt
  | SystemExit

fun isinstance_Exception :: "py_error \<Rightarrow> bool" where
  "isinstance_Exception KeyboardInterrupt = False"
| "isinstance_Exception SystemExit = False"
| "isinstance_Exception _ = True"

section \<open>engine\_evaluation.py: data\<close>

text \<open>
  \<open>CustomImage\<close> and \<open>Sequence\<close> come from \<open>data_structures\<close>; only the attributes that
  \<open>EngineEvaluator\<close> reads are kept. Boxes (\<open>'b\<close>) and the raw timedelta value (\<open>'td\<close>) are
  opaque to the evaluator.
\<close>

record ('b, 'td) CustomImage =
  path :: string
  boxes :: 'b
  label :: bool
  timedelta :: 'td

record ('b, 'td) Sequence =
  sequence_id :: string
  images :: "('b, 'td) CustomImage list"
  label :: bool

text \<open>One row of the dataframe whose columns are \<open>self.results_data\<close>.\<close>

record ('b, 'td) row =
  row_sequence_id :: string
  row_image :: string
  row_sequence_label :: bool
  row_ground_truth_boxes :: 'b
  row_image_label :: bool
  row_prediction :: bool
  row_confidence :: real
  row_timedelta :: 'td

text \<open>
  \<open>collections.deque(iterable, maxlen)\<close>, the per-camera entry of \<open>Engine._states\<close>, and the
  part of the pyroengine \<open>Engine\<close> object that the evaluator touches.
\<close>

record 'p deque =
  items :: "'p list"
  maxlen :: nat

record 'p cam_state =
  last_predictions :: "'p deque"
  ongoing :: bool

record 'p Engine =
  conf_thresh :: real
  states :: "string \<rightharpoonup> 'p cam_state"

text \<open>
  The evaluator object: the configuration entry \<open>nb_consecutive_frames\<close>, the flags, the
  engine, the prediction table, and the file \<open>predictions_csv\<close> (\<open>None\<close> while it does not
  exist) together with the number of checkpoint writes made inside the loop.
\<close>

record ('b, 'td, 'p) EngineEvaluator =
  nb_consecutive_frames :: nat
  save :: bool
  resume :: bool
  engine :: "'p Engine"
  predictions_df :: "('b, 'td) row list"
  predictions_csv :: "('b, 'td) row list option"
  checkpoints :: nat

text \<open>
  The two external calls of the frame loop: \<open>image.load()\<close> and \<open>Engine.predict\<close>. Both may
  raise; \<open>predict\<close> returns the confidence and the engine as it leaves it.
\<close>

type_synonym ('b, 'td, 'pil) loader = "('b, 'td) CustomImage \<Rightarrow> py_error + 'pil"
type_synonym ('p, 'pil) predictor = "'p Engine \<Rightarrow> 'pil \<Rightarrow> py_error + (real \<times> 'p Engine)"

section \<open>EngineEvaluator.run\_engine\_sequence\<close>

definition make_row ::
  "('b, 'td) Sequence \<Rightarrow> ('b, 'td) CustomImage \<Rightarrow> real \<Rightarrow> real \<Rightarrow> ('b, 'td) row" where
  "make_row s im confidence thresh =
     \<lparr> row_sequence_id = sequence_id s,
       row_image = path im,
       row_sequence_label = Sequence.label s,
       row_ground_truth_boxes = boxes im,
       row_image_label = CustomImage.label im,
       row_prediction = (confidence > thresh),
       row_confidence = confidence,
       row_timedelta = timedelta im \<rparr>"

text \<open>The \<open>for image in sequence.images\<close> loop; a raise leaves the loop at once.\<close>

fun run_frames ::
  "('b, 'td, 'pil) loader \<Rightarrow> ('p, 'pil) predictor \<Rightarrow> ('b, 'td) Sequence \<Rightarrow>
   ('b, 'td) CustomImage list \<Rightarrow> 'p Engine \<Rightarrow> ('b, 'td) row list \<Rightarrow>
   py_error + (('b, 'td) row list \<times> 'p Engine)" where
  "run_frames ld pr s [] e sequence_results = Inr (sequence_results, e)"
| "run_frames ld pr s (im # ims) e sequence_results =
     (case ld im of
        Inl x \<Rightarrow> Inl x
      | Inr pil_image \<Rightarrow>
          (case pr e pil_image of
             Inl x \<Rightarrow> Inl x
           | Inr (confidence, e') \<Rightarrow>
               run_frames ld pr s ims e'
                 (sequence_results @ [make_row s im confidence (conf_thresh e')])))"

definition reset_states :: "nat \<Rightarrow> (string \<rightharpoonup> 'p cam_state)" where
  "reset_states n =
     [''-1'' \<mapsto> \<lparr> last_predictions = \<lparr> items = [], maxlen = n \<rparr>, ongoing = False \<rparr>]"

definition run_engine_sequence ::
  "('b, 'td, 'pil) loader \<Rightarrow> ('p, 'pil) predictor \<Rightarrow> ('b, 'td, 'p) EngineEvaluator \<Rightarrow>
   ('b, 'td) Sequence \<Rightarrow> py_error + (('b, 'td) row list \<times> 'p Engine)" where
  "run_engine_sequence ld pr ev s =
     (case run_frames ld pr s (images s) (engine ev) [] of
        Inl x \<Rightarrow> Inl x
      | Inr (sequence_results, e') \<Rightarrow>
          Inr (sequence_results, e'\<lparr> states := reset_states (nb_consecutive_frames ev) \<rparr>))"

text \<open>
  What the engine returns frame by frame: the confidence and the threshold the engine holds
  when the row is written. It threads the engine exactly as the loop does.
\<close>

fun engine_outputs ::
  "('b, 'td, 'pil) loader \<Rightarrow> ('p, 'pil) predictor \<Rightarrow> ('b, 'td) CustomImage list \<Rightarrow>
   'p Engine \<Rightarrow> py_error + ((real \<times> real) list \<times> 'p Engine)" where
  "engine_outputs ld pr [] e = Inr ([], e)"
| "engine_outputs ld pr (im # ims) e =
     (case ld im of
        Inl x \<Rightarrow> Inl x
      | Inr pil_image \<Rightarrow>
          (case pr e pil_image of
             Inl x \<Rightarrow> Inl x
           | Inr (confidence, e') \<Rightarrow>
               (case engine_outputs ld pr ims e' of
                  Inl x \<Rightarrow> Inl x
                | Inr (outs, e'') \<Rightarrow> Inr ((confidence, conf_thresh e') # outs, e''))))"

section \<open>EngineEvaluator.run\_engine\_dataset\<close>

text \<open>
  The checkpoint test after a sequence has been appended:
  \<open>if self.save and len(self.predictions_df) % 50 == 0\<close>.
\<close>

definition checkpoint ::
  "('b, 'td, 'p) EngineEvaluator \<Rightarrow> ('b, 'td, 'p) EngineEvaluator" where
  "checkpoint ev =
     (if save ev \<and> length (predictions_df ev) mod 50 = 0
      then ev\<lparr> predictions_csv := Some (predictions_df ev),
               checkpoints := Suc (checkpoints ev) \<rparr>
      else ev)"

text \<open>
  The \<open>for sequence in self.dataset\<close> loop. The result pairs the exception that left the
  loop, if any, with the evaluator as the loop leaves it.
\<close>

fun dataset_loop ::
  "('b, 'td, 'pil) loader \<Rightarrow> ('p, 'pil) predictor \<Rightarrow> ('b, 'td, 'p) EngineEvaluator \<Rightarrow>
   ('b, 'td) Sequence list \<Rightarrow> py_error option \<times> ('b, 'td, 'p) EngineEvaluator" where
  "dataset_loop ld pr ev [] = (None, ev)"
| "dataset_loop ld pr ev (s # ss) =
     (if resume ev \<and> sequence_id s \<in> set (map row_sequence_id (predictions_df ev))
      then dataset_loop ld pr ev ss
      else
        (case run_engine_sequence ld pr ev s of
           Inl x \<Rightarrow> (Some x, ev)
         | Inr (sequence_results, e') \<Rightarrow>
             dataset_loop ld pr
               (checkpoint (ev\<lparr> engine := e',
                               predictions_df := predictions_df ev @ sequence_results \<rparr>))
               ss))"

text \<open>
  The whole method. Without \<open>save\<close> the path \<open>predictions_csv\<close> is the empty string, which
  is no file. Reading the file back is taken to return the rows that were written. The
  \<open>finally\<close> block only removes a temporary model file and is left out.
\<close>

definition run_engine_dataset ::
  "('b, 'td, 'pil) loader \<Rightarrow> ('p, 'pil) predictor \<Rightarrow> ('b, 'td, 'p) EngineEvaluator \<Rightarrow>
   ('b, 'td) Sequence list \<Rightarrow> py_error option \<times> ('b, 'td, 'p) EngineEvaluator" where
  "run_engine_dataset ld pr ev dataset =
     (let loaded =
            (case (if save ev then predictions_csv ev else None) of
               Some table \<Rightarrow> if resume ev then table else []
             | None \<Rightarrow> []);
          (err, ev') = dataset_loop ld pr (ev\<lparr> predictions_df := loaded \<rparr>) dataset
      in case err of
           Some x \<Rightarrow> (Some x, ev')
         | None \<Rightarrow>
             (None, if save ev' then ev'\<lparr> predictions_csv := Some (predictions_df ev') \<rparr>
                    else ev'))"

section \<open>EngineEvaluator.compute\_sequence\_level\_metrics\<close>

text \<open>
  A detection delay is Python's \<open>None\<close>, pandas' \<open>NaT\<close>, or a duration in nanoseconds.
  \<open>pd.to_timedelta(..., errors="coerce")\<close> is a parameter \<open>parse\<close> of the model: it gives
  \<open>None\<close> where pandas gives \<open>NaT\<close>.
\<close>

datatype delay = PyNone | NaT | Timedelta int

fun isnull :: "delay \<Rightarrow> bool" where
  "isnull (Timedelta d) = False"
| "isnull _ = True"

fun dropna :: "delay list \<Rightarrow> int list" where
  "dropna [] = []"
| "dropna (Timedelta d # xs) = d # dropna xs"
| "dropna (_ # xs) = dropna xs"

fun parsed_values :: "int option list \<Rightarrow> int list" where
  "parsed_values [] = []"
| "parsed_values (Some d # xs) = d # parsed_values xs"
| "parsed_values (None # xs) = parsed_values xs"

text \<open>\<open>Series.min\<close> with its default \<open>skipna=True\<close>, which is what \<open>np.min\<close> calls.\<close>

definition series_min :: "int option list \<Rightarrow> delay" where
  "series_min xs =
     (case parsed_values xs of
        [] \<Rightarrow> NaT
      | d # ds \<Rightarrow> Timedelta (fold min ds d))"

record sequence_metric =
  m_sequence_id :: string
  m_label :: bool
  has_detection :: bool
  detection_delay :: delay

text \<open>\<open>groupby("sequence_id")\<close>: the keys in sorted order, each with its rows in table order.\<close>

definition groupby_sequence_id ::
  "('b, 'td) row list \<Rightarrow> (string \<times> ('b, 'td) row list) list" where
  "groupby_sequence_id df =
     map (\<lambda>k. (k, filter (\<lambda>r. row_sequence_id r = k) df))
         (sort (remdups (map row_sequence_id df)))"

definition group_detection_delay :: "('td \<Rightarrow> int option) \<Rightarrow> ('b, 'td) row list \<Rightarrow> delay" where
  "group_detection_delay parse grp =
     (let detection_timedeltas = map (\<lambda>r. parse (row_timedelta r)) (filter row_prediction grp)
      in if detection_timedeltas \<noteq> [] then series_min detection_timedeltas else PyNone)"

text \<open>The loop over the groups; \<open>iloc[0]\<close> on a group without rows would raise.\<close>

fun sequence_metrics_loop ::
  "('td \<Rightarrow> int option) \<Rightarrow> (string \<times> ('b, 'td) row list) list \<Rightarrow> sequence_metric list \<Rightarrow>
   py_error + sequence_metric list" where
  "sequence_metrics_loop parse [] sequence_metrics = Inr sequence_metrics"
| "sequence_metrics_loop parse ((sid, grp) # gs) sequence_metrics =
     (case grp of
        [] \<Rightarrow> Inl (IndexError ''single positional indexer is out-of-bounds'')
      | r # _ \<Rightarrow>
          sequence_metrics_loop parse gs
            (sequence_metrics @
              [\<lparr> m_sequence_id = sid,
                 m_label = row_sequence_label r,
                 has_detection = list_ex row_prediction grp,
                 detection_delay = group_detection_delay parse grp \<rparr>]))"

record bucket_lists =
  pred_tp :: "string list"
  pred_fn :: "string list"
  pred_fp :: "string list"
  pred_tn :: "string list"

record sequence_snapshot =
  precision :: real
  recall :: real
  f1 :: real
  tp :: nat
  fp :: nat
  fn :: nat
  tn :: nat
  avg_detection_delay :: "real option"
  predictions :: bucket_lists

text \<open>The mean of a column of durations, as a number of nanoseconds.\<close>

definition mean :: "int list \<Rightarrow> real" where
  "mean ds = real_of_int (sum_list ds) / real (length ds)"

text \<open>
  \<open>compute_metrics\<close> lives in \<open>utils\<close>; it is a parameter taking the counts in the order
  false positives, true positives, false negatives and giving precision, recall and f1.
  A dataframe built from an empty list has no column, so selecting \<open>"label"\<close> raises.
\<close>

definition compute_sequence_level_metrics ::
  "('td \<Rightarrow> int option) \<Rightarrow> (nat \<Rightarrow> nat \<Rightarrow> nat \<Rightarrow> real \<times> real \<times> real) \<Rightarrow>
   ('b, 'td) row list \<Rightarrow> py_error + sequence_snapshot" where
  "compute_sequence_level_metrics parse compute_metrics df =
     (case sequence_metrics_loop parse (groupby_sequence_id df) [] of
        Inl x \<Rightarrow> Inl x
      | Inr sequence_df \<Rightarrow>
          if sequence_df = [] then Inl (KeyError ''label'')
          else
            (let tp_sequences =
                   filter (\<lambda>m. m_label m = True \<and> has_detection m = True) sequence_df;
                 fn_sequences =
                   filter (\<lambda>m. m_label m = True \<and> has_detection m = False) sequence_df;
                 fp_sequences =
                   filter (\<lambda>m. m_label m = False \<and> has_detection m = True) sequence_df;
                 tn_sequences =
                   filter (\<lambda>m. m_label m = False \<and> has_detection m = False) sequence_df;
                 (p, r, f) =
                   compute_metrics (length fp_sequences) (length tp_sequences)
                     (length fn_sequences);
                 delays = map detection_delay tp_sequences
             in Inr \<lparr> precision = p, recall = r, f1 = f,
                      tp = length tp_sequences,
                      fp = length fp_sequences,
                      fn = length fn_sequences,
                      tn = length tn_sequences,
                      avg_detection_delay =
                        (if \<not> list_all isnull delays then Some (mean (dropna delays))
                         else None),
                      predictions =
                        \<lparr> pred_tp = map m_sequence_id tp_sequences,
                          pred_fn = map m_sequence_id fn_sequences,
                          pred_fp = map m_sequence_id fp_sequences,
                          pred_tn = map m_sequence_id tn_sequences \<rparr> \<rparr>))"

text \<open>
  The delays that enter the average, written from the table alone: one per sequence id, in
  key order, for the groups whose label is true, which hold a positive prediction, and whose
  positive rows hold a timedelta that parses; each is the least such timedelta.
\<close>

definition positive_timedeltas ::
  "('td \<Rightarrow> int option) \<Rightarrow> ('b, 'td) row list \<Rightarrow> string \<Rightarrow> int list" where
  "positive_timedeltas parse df sid =
     parsed_values (map (\<lambda>r. parse (row_timedelta r))
       (filter (\<lambda>r. row_sequence_id r = sid \<and> row_prediction r) df))"

definition group_label :: "('b, 'td) row list \<Rightarrow> string \<Rightarrow> bool" where
  "group_label df sid =
     (case filter (\<lambda>r. row_sequence_id r = sid) df of
        [] \<Rightarrow> False
      | r # _ \<Rightarrow> row_sequence_label r)"

definition true_positive_delays :: "('td \<Rightarrow> int option) \<Rightarrow> ('b, 'td) row list \<Rightarrow> int list" where
  "true_positive_delays parse df =
     map (\<lambda>sid. Min (set (positive_timedeltas parse df sid)))
       (filter (\<lambda>sid. group_label df sid \<and> positive_timedeltas parse df sid \<noteq> [])
          (sort (remdups (map row_sequence_id df))))"

text \<open>
  The entry of \<open>sequence_metrics\<close> for one sequence id, read off the whole table: the rows
  of the group are the rows of the table that carry the id.
\<close>

definition metric_of_key ::
  "('td \<Rightarrow> int option) \<Rightarrow> ('b, 'td) row list \<Rightarrow> string \<Rightarrow> sequence_metric" where
  "metric_of_key parse df sid =
     \<lparr> m_sequence_id = sid,
       m_label = group_label df sid,
       has_detection = list_ex row_prediction (filter (\<lambda>r. row_sequence_id r = sid) df),
       detection_delay =
         group_detection_delay parse (filter (\<lambda>r. row_sequence_id r = sid) df) \<rparr>"

section \<open>model.py\<close>

subsection \<open>String operations of Python used by the loader\<close>

definition endswith :: "string \<Rightarrow> string \<Rightarrow> bool" where
  "endswith s suf =
     (length suf \<le> length s \<and> drop (length s - length suf) s = suf)"

text \<open>\<open>sub in s\<close> on strings.\<close>

fun contains :: "string \<Rightarrow> string \<Rightarrow> bool" where
  "contains sub [] = (sub = [])"
| "contains sub (c # cs) = (take (length sub) (c # cs) = sub \<or> contains sub cs)"

text \<open>
  \<open>s.split(sep)[-1]\<close> for a non-empty separator: the scan runs left to right over
  non-overlapping matches and keeps what follows the last one.
\<close>

fun split_last_aux :: "string \<Rightarrow> nat \<Rightarrow> string \<Rightarrow> string \<Rightarrow> string" where
  "split_last_aux sep skip piece [] = piece"
| "split_last_aux sep skip piece (c # cs) =
     (if skip > 0 then split_last_aux sep (skip - 1) piece cs
      else if take (length sep) (c # cs) = sep
      then split_last_aux sep (length sep - 1) (drop (length sep) (c # cs)) cs
      else split_last_aux sep 0 piece cs)"

definition split_last :: "string \<Rightarrow> string \<Rightarrow> string" where
  "split_last sep s = split_last_aux sep 0 s s"

definition basename :: "string \<Rightarrow> string" where
  "basename p = split_last ''/'' p"

subsection \<open>The model object and its surroundings\<close>

record box =
  xyxyn :: "real list"
  conf :: real

record inference_params =
  ip_conf :: real
  ip_iou :: real
  ip_imgsz :: nat

text \<open>
  The loaded model offers the two calls that \<open>inference\<close> makes: calling the object (the
  ONNX classifier) and \<open>predict\<close> (YOLO), which returns a list of results, each a list of
  boxes.
\<close>

record 'pil model_object =
  call :: "'pil \<Rightarrow> py_error + real list list"
  predict :: "'pil \<Rightarrow> inference_params \<Rightarrow> string \<Rightarrow> py_error + box list list"

text \<open>
  The attributes of \<open>Model\<close>. An attribute that has not been assigned yet, as
  \<open>inference_params\<close> while \<open>__init__\<close> is still loading the model, is \<open>None\<close>.
\<close>

record 'pil Model =
  model_path :: "string option"
  format :: "string option"
  inference_params :: "inference_params option"
  device :: string
  model :: "'pil model_object option"

text \<open>The file system, the two model constructors and the Hugging Face client.\<close>

record 'pil world =
  isfile :: "string \<Rightarrow> bool"
  Classifier :: "string \<Rightarrow> real \<Rightarrow> py_error + 'pil model_object"
  YOLO :: "string \<Rightarrow> py_error + 'pil model_object"
  getenv_HF_TOKEN :: "string option"
  HfFolder_get_token :: "string option"
  hf_hub_download :: "string \<Rightarrow> string \<Rightarrow> py_error + unit"
  model_info :: "string \<Rightarrow> string \<Rightarrow> py_error + bool"

subsection \<open>Model.load\_onnx, Model.load\_HF, Model.load\_model\<close>

text \<open>Each loader returns its result or exception together with the object as it leaves it.\<close>

definition load_onnx ::
  "'pil world \<Rightarrow> 'pil Model \<Rightarrow> (py_error + 'pil model_object) \<times> 'pil Model" where
  "load_onnx w m =
     (let attempt =
            (case inference_params m of
               None \<Rightarrow> Inl (AttributeError ''inference_params'')
             | Some ip \<Rightarrow>
                 (case model_path m of
                    None \<Rightarrow> Inl (OtherException ''model_path'')
                  | Some p \<Rightarrow> Classifier w p (ip_conf ip)))
      in case attempt of
           Inl e \<Rightarrow>
             (if isinstance_Exception e
              then (Inl (RuntimeError ''Failed to load the ONNX model''), m)
              else (Inl e, m))
         | Inr mdl \<Rightarrow> (Inr mdl, m\<lparr> format := Some ''onnx'' \<rparr>))"

definition load_HF ::
  "'pil world \<Rightarrow> 'pil Model \<Rightarrow> (py_error + 'pil model_object) \<times> 'pil Model" where
  "load_HF w m =
     (case model_path m of
        None \<Rightarrow> (Inl (AttributeError ''split''), m)
      | Some p \<Rightarrow>
          (let token =
                 (case getenv_HF_TOKEN w of
                    Some t \<Rightarrow> if t \<noteq> [] then Some t else HfFolder_get_token w
                  | None \<Rightarrow> HfFolder_get_token w);
               repo_id = split_last ''https://huggingface.co/'' p;
               filename = basename repo_id @ ''.pt''
           in case token of
                None \<Rightarrow> (Inl (ValueError ''Error : no Hugging Face token found.''), m)
              | Some tok \<Rightarrow>
                  (case hf_hub_download w repo_id filename of
                     Inl (HfHubHTTPError e) \<Rightarrow> (Inl (ValueError (''Access denied to '' @ repo_id)), m)
                   | Inl x \<Rightarrow> (Inl x, m)
                   | Inr _ \<Rightarrow>
                       (case model_info w repo_id tok of
                          Inl x \<Rightarrow> (Inl x, m)
                        | Inr info \<Rightarrow>
                            if \<not> info
                            then (Inl (ValueError (p @ '' doesn't exist or is not accessible.'')), m)
                            else (YOLO w p, m\<lparr> format := Some ''hf'' \<rparr>)))))"

text \<open>\<open>load_model\<close> returns a model, Python's \<open>None\<close>, or raises.\<close>

definition load_model ::
  "'pil world \<Rightarrow> 'pil Model \<Rightarrow> (py_error + 'pil model_object option) \<times> 'pil Model" where
  "load_model w m =
     (case model_path m of
        None \<Rightarrow> (Inl (ValueError ''No model provided for evaluation, path needs to be specified.''), m)
      | Some p \<Rightarrow>
          if p = []
          then (Inl (ValueError ''No model provided for evaluation, path needs to be specified.''), m)
          else if isfile w p then
            (if endswith p ''.onnx'' then
               (case load_onnx w m of
                  (Inl x, m') \<Rightarrow> (Inl x, m')
                | (Inr mdl, m') \<Rightarrow> (Inr (Some mdl), m'))
             else if endswith p ''.pt'' then
               (case YOLO w p of
                  Inl x \<Rightarrow> (Inl x, m\<lparr> format := Some ''pt'' \<rparr>)
                | Inr mdl \<Rightarrow> (Inr (Some mdl), m\<lparr> format := Some ''pt'' \<rparr>))
             else (Inr None, m))
          else
            (if contains ''huggingface.co'' p then
               (case load_HF w m of
                  (Inl x, m') \<Rightarrow> (Inl x, m')
                | (Inr _, m') \<Rightarrow> (Inl (FileNotFoundError (''Model file not found: '' @ p)), m'))
             else (Inl (FileNotFoundError (''Model file not found: '' @ p)), m)))"

subsection \<open>Model.inference\<close>

text \<open>
  The two guarded calls. Calling a missing model or reading a missing attribute raises an
  ordinary exception inside the \<open>try\<close>; \<open>[0]\<close> on an empty result list raises IndexError.
\<close>

definition call_model :: "'pil Model \<Rightarrow> 'pil \<Rightarrow> py_error + real list list" where
  "call_model m pil_image =
     (case model m of
        None \<Rightarrow> Inl (OtherException ''NoneType object is not callable'')
      | Some mdl \<Rightarrow> call mdl pil_image)"

definition predict_model :: "'pil Model \<Rightarrow> 'pil \<Rightarrow> py_error + real list list" where
  "predict_model m pil_image =
     (case model m of
        None \<Rightarrow> Inl (AttributeError ''predict'')
      | Some mdl \<Rightarrow>
          (case inference_params m of
             None \<Rightarrow> Inl (AttributeError ''inference_params'')
           | Some ip \<Rightarrow>
               (case predict mdl pil_image ip (device m) of
                  Inl x \<Rightarrow> Inl x
                | Inr [] \<Rightarrow> Inl (IndexError ''list index out of range'')
                | Inr (results # _) \<Rightarrow> Inr (map (\<lambda>b. xyxyn b @ [conf b]) results))))"

text \<open>
  \<open>inference\<close> takes the error log and returns it extended. \<open>image.load()\<close> stands before
  the \<open>try\<close>, and \<open>except Exception\<close> lets \<open>BaseException\<close>-only signals through.
\<close>

definition inference ::
  "('b, 'td, 'pil) loader \<Rightarrow> 'pil Model \<Rightarrow> ('b, 'td) CustomImage \<Rightarrow> string list \<Rightarrow>
   (py_error + real list list) \<times> string list" where
  "inference ld m img logged =
     (case ld img of
        Inl x \<Rightarrow> (Inl x, logged)
      | Inr pil_image \<Rightarrow>
          if format m = Some ''onnx'' then
            (case call_model m pil_image of
               Inr prediction \<Rightarrow> (Inr prediction, logged)
             | Inl e \<Rightarrow>
                 if isinstance_Exception e
                 then (Inr [], logged @ [''Onnx inference failed on '' @ path img])
                 else (Inl e, logged))
          else
            (case predict_model m pil_image of
               Inr prediction \<Rightarrow> (Inr prediction, logged)
             | Inl e \<Rightarrow>
                 if isinstance_Exception e
                 then (Inr [], logged @ [''Inference failed on '' @ path img])
                 else (Inl e, logged)))"

section \<open>Concrete inputs\<close>

text \<open>
  A small world to run the definitions in: images load to their path, the engine answers
  0.5 for \<open>a.jpg\<close> and 0.7 for anything else and keeps its threshold of 0.5.
\<close>

definition ex_image :: "string \<Rightarrow> int \<Rightarrow> (unit, int) CustomImage" where
  "ex_image p td = \<lparr> path = p, boxes = (), label = True, timedelta = td \<rparr>"

definition ex_load :: "(unit, int, string) loader" where
  "ex_load im = Inr (path im)"

definition ex_predict :: "(real, string) predictor" where
  "ex_predict e pil = Inr (if pil = ''a.jpg'' then 1 / 2 else 7 / 10, e)"

definition ex_engine :: "real Engine" where
  "ex_engine = \<lparr> conf_thresh = 1 / 2, states = Map.empty \<rparr>"

definition ex_evaluator :: "(unit, int, real) EngineEvaluator" where
  "ex_evaluator =
     \<lparr> nb_consecutive_frames = 2, save = True, resume = True, engine = ex_engine,
       predictions_df = [], predictions_csv = None, checkpoints = 0 \<rparr>"

definition ex_sequence :: "(unit, int) Sequence" where
  "ex_sequence =
     \<lparr> sequence_id = ''seq'', images = [ex_image ''a.jpg'' 0, ex_image ''b.jpg'' 30],
       label = True \<rparr>"

definition ex_rows :: "(unit, int) row list" where
  "ex_rows =
     [\<lparr> row_sequence_id = ''seq'', row_image = ''a.jpg'', row_sequence_label = True,
        row_ground_truth_boxes = (), row_image_label = True, row_prediction = False,
        row_confidence = 1 / 2, row_timedelta = 0 \<rparr>,
      \<lparr> row_sequence_id = ''seq'', row_image = ''b.jpg'', row_sequence_label = True,
        row_ground_truth_boxes = (), row_image_label = True, row_prediction = True,
        row_confidence = 7 / 10, row_timedelta = 30 \<rparr>]"

text \<open>Two sequences of thirty frames each: the table grows from 0 to 30 to 60 rows.\<close>

definition thirty_frames :: "string \<Rightarrow> (unit, int) Sequence" where
  "thirty_frames sid =
     \<lparr> sequence_id = sid, images = replicate 30 (ex_image ''b.jpg'' 0), label = True \<rparr>"

text \<open>
  A prediction table for the metrics: sequence \<open>S\<close> is labelled true and alerts at 5, 2 and 9
  seconds and on a frame whose timedelta does not parse; sequence \<open>T\<close> is labelled false and
  never alerts. Durations are in nanoseconds; a negative raw value stands for text that
  \<open>to_timedelta\<close> cannot read.
\<close>

definition ex_parse :: "int \<Rightarrow> int option" where
  "ex_parse t = (if t < 0 then None else Some (t * 1000000000))"

definition ex_row :: "string \<Rightarrow> bool \<Rightarrow> bool \<Rightarrow> int \<Rightarrow> (unit, int) row" where
  "ex_row sid lab pred td =
     \<lparr> row_sequence_id = sid, row_image = ''img.jpg'', row_sequence_label = lab,
       row_ground_truth_boxes = (), row_image_label = lab, row_prediction = pred,
       row_confidence = (if pred then 7 / 10 else 1 / 10), row_timedelta = td \<rparr>"

definition ex_table :: "(unit, int) row list" where
  "ex_table =
     [ex_row ''S'' True False 0, ex_row ''S'' True True 5, ex_row ''S'' True True 2,
      ex_row ''S'' True True 9, ex_row ''S'' True True (- 1),
      ex_row ''T'' False False 0, ex_row ''T'' False False 4]"

definition ex_compute_metrics :: "nat \<Rightarrow> nat \<Rightarrow> nat \<Rightarrow> real \<times> real \<times> real" where
  "ex_compute_metrics false_positives true_positives false_negatives =
     (let p = (if true_positives + false_positives = 0 then 0
               else real true_positives / real (true_positives + false_positives));
          r = (if true_positives + false_negatives = 0 then 0
               else real true_positives / real (true_positives + false_negatives))
      in (p, r, if p + r = 0 then 0 else 2 * p * r / (p + r)))"

text \<open>
  A machine without network access or model files, and two model objects: one with an
  empty path and one that points at a Hugging Face repository.
\<close>

definition offline_world :: "string world" where
  "offline_world =
     \<lparr> isfile = (\<lambda>p. False),
       Classifier = (\<lambda>p c. Inl (OtherException ''no such file'')),
       YOLO = (\<lambda>p. Inl (OtherException ''no such file'')),
       getenv_HF_TOKEN = None,
       HfFolder_get_token = None,
       hf_hub_download = (\<lambda>repo_id filename. Inl (HfHubHTTPError ''offline'')),
       model_info = (\<lambda>repo_id token. Inl (HfHubHTTPError ''offline'')) \<rparr>"

definition model_at :: "string \<Rightarrow> string Model" where
  "model_at p =
     \<lparr> model_path = Some p, format = None, inference_params = None, device = ''cpu'',
       model = None \<rparr>"

text \<open>A model whose every call fails, and an image for it.\<close>

definition failing_model :: "string Model" where
  "failing_model =
     \<lparr> model_path = Some ''model.onnx'', format = Some ''onnx'',
       inference_params = Some \<lparr> ip_conf = 5 / 100, ip_iou = 0, ip_imgsz = 1024 \<rparr>,
       device = ''cpu'',
       model = Some \<lparr> call = (\<lambda>pil. Inl (RuntimeError ''session failed'')),
                      predict = (\<lambda>pil ip dev. Inl (RuntimeError ''session failed'')) \<rparr> \<rparr>"

text \<open>
  A machine with a Hugging Face token whose downloads succeed, and which holds one local
  file that is neither \<open>.onnx\<close> nor \<open>.pt\<close>.
\<close>

definition some_model :: "string model_object" where
  "some_model = \<lparr> call = (\<lambda>pil. Inr []), predict = (\<lambda>pil ip dev. Inr [[]]) \<rparr>"

definition hub_world :: "string world" where
  "hub_world =
     \<lparr> isfile = (\<lambda>p. p = ''weights.bin''),
       Classifier = (\<lambda>p c. Inr some_model),
       YOLO = (\<lambda>p. Inr some_model),
       getenv_HF_TOKEN = Some ''hf_token'',
       HfFolder_get_token = None,
       hf_hub_download = (\<lambda>repo_id filename. Inr ()),
       model_info = (\<lambda>repo_id token. Inr True) \<rparr>"

section \<open>Properties of run\_engine\_sequence\<close>

text \<open>
  The frame loop and the list of engine outputs walk the images in the same way, so the rows
  are the images zipped with what the engine returned.
\<close>

lemma run_frames_outputs:
  "run_frames ld pr s ims e acc =
     (case engine_outputs ld pr ims e of
        Inl x \<Rightarrow> Inl x
      | Inr (outs, e') \<Rightarrow>
          Inr (acc @ map (\<lambda>(im, c, t). make_row s im c t) (zip ims outs), e'))"
proof (induction ims arbitrary: e acc)
  case Nil
  show ?case by simp
next
  case (Cons im ims)
  show ?case
    by (simp add: Cons.IH split: sum.splits prod.splits)
qed

lemma engine_outputs_length:
  "engine_outputs ld pr ims e = Inr (outs, e') \<Longrightarrow> length outs = length ims"
proof (induction ims arbitrary: e outs e')
  case Nil
  then show ?case by simp
next
  case (Cons im ims)
  then show ?case
    by (fastforce split: sum.splits prod.splits)
qed

lemma engine_outputs_thresh:
  assumes keep: "\<And>e pil c e'. pr e pil = Inr (c, e') \<Longrightarrow> conf_thresh e' = conf_thresh e"
  shows "engine_outputs ld pr ims e = Inr (outs, e') \<Longrightarrow>
         conf_thresh e' = conf_thresh e \<and> (\<forall>out \<in> set outs. snd out = conf_thresh e)"
proof (induction ims arbitrary: e outs e')
  case Nil
  then show ?case by simp
next
  case (Cons im ims)
  from Cons.prems obtain pil c e1 outs1 where
    p: "pr e pil = Inr (c, e1)" and
    r: "engine_outputs ld pr ims e1 = Inr (outs1, e')" and
    oo: "outs = (c, conf_thresh e1) # outs1"
    by (auto split: sum.splits prod.splits)
  from keep [OF p] Cons.IH [OF r] oo show ?case by auto
qed

lemma run_engine_sequence_outputs:
  "run_engine_sequence ld pr ev s =
     (case engine_outputs ld pr (images s) (engine ev) of
        Inl x \<Rightarrow> Inl x
      | Inr (outs, e') \<Rightarrow>
          Inr (map (\<lambda>(im, c, t). make_row s im c t) (zip (images s) outs),
               e'\<lparr> states := reset_states (nb_consecutive_frames ev) \<rparr>))"
  by (simp add: run_engine_sequence_def run_frames_outputs split: sum.splits prod.splits)

lemma run_engine_sequence_rows:
  assumes "run_engine_sequence ld pr ev s = Inr (rows, e')"
  obtains outs e'' where
    "engine_outputs ld pr (images s) (engine ev) = Inr (outs, e'')"
    "length outs = length (images s)"
    "rows = map (\<lambda>(im, c, t). make_row s im c t) (zip (images s) outs)"
    "e' = e''\<lparr> states := reset_states (nb_consecutive_frames ev) \<rparr>"
  using assms
  by (auto simp: run_engine_sequence_outputs engine_outputs_length split: sum.splits prod.splits)

lemma run_engine_sequence_length:
  "run_engine_sequence ld pr ev s = Inr (rows, e') \<Longrightarrow> length rows = length (images s)"
  by (erule run_engine_sequence_rows) simp

lemma run_engine_sequence_ids:
  "run_engine_sequence ld pr ev s = Inr (rows, e') \<Longrightarrow> r \<in> set rows \<Longrightarrow>
   row_sequence_id r = sequence_id s"
  by (erule run_engine_sequence_rows) (auto simp: make_row_def dest!: set_zip_leftD)

lemma ex_run:
  "run_engine_sequence ex_load ex_predict ex_evaluator ex_sequence =
     Inr (ex_rows, ex_engine\<lparr> states := reset_states 2 \<rparr>)"
  by (simp add: run_engine_sequence_def ex_load_def ex_predict_def ex_evaluator_def
      ex_sequence_def ex_rows_def ex_image_def make_row_def ex_engine_def)

lemma ex_predict_keeps_thresh:
  "ex_predict e pil = Inr (c, e') \<Longrightarrow> conf_thresh e' = conf_thresh e"
  by (auto simp: ex_predict_def)

text \<open>
  Claim C1. Every row written by \<open>run_engine_sequence\<close> records as its prediction the strict
  comparison of the confidence the engine returned with the engine's threshold; a
  confidence equal to the threshold gives the prediction False. The threshold is the
  configured one as long as \<open>Engine.predict\<close> leaves \<open>conf_thresh\<close> alone, which is the
  hypothesis \<open>keep\<close>.
\<close>

theorem prediction_is_strict_comparison:
  assumes keep: "\<And>e pil c e'. pr e pil = Inr (c, e') \<Longrightarrow> conf_thresh e' = conf_thresh e"
    and run: "run_engine_sequence ld pr ev s = Inr (rows, e')"
  shows "\<forall>r \<in> set rows.
           row_prediction r = (row_confidence r > conf_thresh (engine ev)) \<and>
           (row_confidence r = conf_thresh (engine ev) \<longrightarrow> \<not> row_prediction r)"
proof -
  from run obtain outs e'' where
    eo: "engine_outputs ld pr (images s) (engine ev) = Inr (outs, e'')" and
    rows: "rows = map (\<lambda>(im, c, t). make_row s im c t) (zip (images s) outs)"
    by (rule run_engine_sequence_rows)
  from engine_outputs_thresh [of pr, OF keep eo]
  have th: "\<forall>out \<in> set outs. snd out = conf_thresh (engine ev)" by simp
  show ?thesis
  proof
    fix r assume "r \<in> set rows"
    then obtain im c t where "(im, c, t) \<in> set (zip (images s) outs)" and r: "r = make_row s im c t"
      unfolding rows by auto
    then have "(c, t) \<in> set outs" by (auto dest: set_zip_rightD)
    with th have "t = conf_thresh (engine ev)" by auto
    with r show "row_prediction r = (row_confidence r > conf_thresh (engine ev)) \<and>
           (row_confidence r = conf_thresh (engine ev) \<longrightarrow> \<not> row_prediction r)"
      by (simp add: make_row_def)
  qed
qed

theorem prediction_is_strict_comparison_witness:
  "run_engine_sequence ex_load ex_predict ex_evaluator ex_sequence =
     Inr (ex_rows, ex_engine\<lparr> states := reset_states 2 \<rparr>) \<and>
   row_confidence (ex_rows ! 0) = conf_thresh (engine ex_evaluator) \<and>
   \<not> row_prediction (ex_rows ! 0) \<and>
   row_prediction (ex_rows ! 1) = (row_confidence (ex_rows ! 1) > conf_thresh (engine ex_evaluator))"
  using prediction_is_strict_comparison [of ex_predict ex_load ex_evaluator ex_sequence,
      OF ex_predict_keeps_thresh ex_run] ex_run
  by (simp add: ex_rows_def ex_evaluator_def ex_engine_def)

text \<open>
  Claim C2. When \<open>run_engine_sequence\<close> returns, the engine's state dictionary holds the
  single camera key \<open>"-1"\<close> with an empty deque of capacity \<open>nb_consecutive_frames\<close> and
  \<open>ongoing = False\<close>, whatever the sequence and whatever the engine held before.
\<close>

theorem states_reset_after_sequence:
  assumes "run_engine_sequence ld pr ev s = Inr (rows, e')"
  shows "states e' ''-1'' =
           Some \<lparr> last_predictions = \<lparr> items = [], maxlen = nb_consecutive_frames ev \<rparr>,
                  ongoing = False \<rparr> \<and>
         dom (states e') = {''-1''}"
  using assms
  by (auto simp: run_engine_sequence_def reset_states_def split: sum.splits prod.splits if_splits)

theorem states_reset_after_sequence_witness:
  "run_engine_sequence ex_load ex_predict ex_evaluator ex_sequence =
     Inr (ex_rows, ex_engine\<lparr> states := reset_states 2 \<rparr>) \<and>
   states (ex_engine\<lparr> states := reset_states 2 \<rparr>) ''-1'' =
     Some \<lparr> last_predictions = \<lparr> items = [], maxlen = 2 \<rparr>, ongoing = False \<rparr> \<and>
   dom (states (ex_engine\<lparr> states := reset_states 2 \<rparr>)) = {''-1''}"
  using states_reset_after_sequence [OF ex_run] ex_run
  by (simp add: ex_evaluator_def)

text \<open>
  Claim C3. \<open>run_engine_sequence\<close> returns one row per frame, in the order of the frames;
  row \<open>i\<close> carries the sequence id and label, the path, boxes, label and timedelta of frame
  \<open>i\<close>, and the confidence and decision the engine gave for frame \<open>i\<close>.
\<close>

theorem one_record_per_frame:
  assumes "run_engine_sequence ld pr ev s = Inr (rows, e')"
  shows "\<exists>outs e''.
           engine_outputs ld pr (images s) (engine ev) = Inr (outs, e'') \<and>
           length outs = length (images s) \<and>
           length rows = length (images s) \<and>
           (\<forall>i < length (images s).
              rows ! i =
                \<lparr> row_sequence_id = sequence_id s,
                  row_image = path (images s ! i),
                  row_sequence_label = Sequence.label s,
                  row_ground_truth_boxes = boxes (images s ! i),
                  row_image_label = CustomImage.label (images s ! i),
                  row_prediction = (fst (outs ! i) > snd (outs ! i)),
                  row_confidence = fst (outs ! i),
                  row_timedelta = timedelta (images s ! i) \<rparr>)"
proof -
  from assms obtain outs e'' where
    eo: "engine_outputs ld pr (images s) (engine ev) = Inr (outs, e'')" and
    len: "length outs = length (images s)" and
    rows: "rows = map (\<lambda>(im, c, t). make_row s im c t) (zip (images s) outs)"
    by (rule run_engine_sequence_rows)
  have "\<forall>i < length (images s). rows ! i = make_row s (images s ! i) (fst (outs ! i)) (snd (outs ! i))"
    using len by (simp add: rows case_prod_beta)
  with eo len rows show ?thesis
    by (auto simp: make_row_def)
qed

theorem one_record_per_frame_witness:
  "run_engine_sequence ex_load ex_predict ex_evaluator ex_sequence =
     Inr (ex_rows, ex_engine\<lparr> states := reset_states 2 \<rparr>) \<and>
   length ex_rows = length (images ex_sequence) \<and>
   map row_image ex_rows = map path (images ex_sequence) \<and>
   map row_timedelta ex_rows = map timedelta (images ex_sequence)"
  using one_record_per_frame [OF ex_run] ex_run
  by (simp add: ex_rows_def ex_sequence_def ex_image_def)

section \<open>Properties of run\_engine\_dataset\<close>

text \<open>
  One iteration of the loop, in its three outcomes: the sequence is skipped, the runner
  returns and its rows are appended, or the runner raises and the loop is left.
\<close>

lemma dataset_loop_skip:
  assumes "resume ev \<and> sequence_id s \<in> set (map row_sequence_id (predictions_df ev))"
  shows "dataset_loop ld pr ev (s # ss) = dataset_loop ld pr ev ss"
  by (subst dataset_loop.simps) (rule if_P [OF assms])

lemma dataset_loop_run:
  assumes "\<not> (resume ev \<and> sequence_id s \<in> set (map row_sequence_id (predictions_df ev)))"
    and "run_engine_sequence ld pr ev s = Inr (rows, e')"
  shows "dataset_loop ld pr ev (s # ss) =
           dataset_loop ld pr
             (checkpoint (ev\<lparr> engine := e', predictions_df := predictions_df ev @ rows \<rparr>)) ss"
proof -
  have "dataset_loop ld pr ev (s # ss) =
          (case run_engine_sequence ld pr ev s of
             Inl x \<Rightarrow> (Some x, ev)
           | Inr (sequence_results, e') \<Rightarrow>
               dataset_loop ld pr
                 (checkpoint (ev\<lparr> engine := e',
                                 predictions_df := predictions_df ev @ sequence_results \<rparr>))
                 ss)"
    by (subst dataset_loop.simps) (rule if_not_P [OF assms(1)])
  also have "\<dots> = dataset_loop ld pr
             (checkpoint (ev\<lparr> engine := e', predictions_df := predictions_df ev @ rows \<rparr>)) ss"
    by (simp only: assms(2) sum.case prod.case)
  finally show ?thesis .
qed

lemma dataset_loop_raise:
  assumes "\<not> (resume ev \<and> sequence_id s \<in> set (map row_sequence_id (predictions_df ev)))"
    and "run_engine_sequence ld pr ev s = Inl x"
  shows "dataset_loop ld pr ev (s # ss) = (Some x, ev)"
proof -
  have "dataset_loop ld pr ev (s # ss) =
          (case run_engine_sequence ld pr ev s of
             Inl x \<Rightarrow> (Some x, ev)
           | Inr (sequence_results, e') \<Rightarrow>
               dataset_loop ld pr
                 (checkpoint (ev\<lparr> engine := e',
                                 predictions_df := predictions_df ev @ sequence_results \<rparr>))
                 ss)"
    by (subst dataset_loop.simps) (rule if_not_P [OF assms(1)])
  also have "\<dots> = (Some x, ev)"
    by (simp only: assms(2) sum.case)
  finally show ?thesis .
qed

lemma dataset_loop_append:
  "dataset_loop ld pr ev (xs @ ys) =
     (case dataset_loop ld pr ev xs of
        (Some x, ev') \<Rightarrow> (Some x, ev')
      | (None, ev') \<Rightarrow> dataset_loop ld pr ev' ys)"
proof (induction xs arbitrary: ev)
  case Nil
  show ?case by simp
next
  case (Cons s xs)
  show ?case
    by (simp add: Cons.IH split: sum.splits prod.splits)
qed

lemma checkpoint_fields:
  "resume (checkpoint ev) = resume ev"
  "save (checkpoint ev) = save ev"
  "engine (checkpoint ev) = engine ev"
  "predictions_df (checkpoint ev) = predictions_df ev"
  "nb_consecutive_frames (checkpoint ev) = nb_consecutive_frames ev"
  by (simp_all add: checkpoint_def)

lemma checkpoint_written:
  "checkpoints (checkpoint ev) =
     (if save ev \<and> length (predictions_df ev) mod 50 = 0 then Suc (checkpoints ev)
      else checkpoints ev)"
  by (simp add: checkpoint_def)

declare dataset_loop.simps(2) [simp del]

lemma dataset_loop_invariant:
  "dataset_loop ld pr ev ss = (err, ev') \<Longrightarrow>
   resume ev' = resume ev \<and> save ev' = save ev \<and>
   nb_consecutive_frames ev' = nb_consecutive_frames ev \<and>
   set (predictions_df ev) \<subseteq> set (predictions_df ev') \<and>
   set (map row_sequence_id (predictions_df ev'))
     \<subseteq> set (map row_sequence_id (predictions_df ev)) \<union> set (map sequence_id ss)"
proof (induction ss arbitrary: ev)
  case Nil
  then show ?case by auto
next
  case (Cons s ss)
  show ?case
  proof (cases "resume ev \<and> sequence_id s \<in> set (map row_sequence_id (predictions_df ev))")
    case True
    from Cons.prems have "dataset_loop ld pr ev ss = (err, ev')"
      by (simp only: dataset_loop_skip [OF True])
    from Cons.IH [OF this] show ?thesis by auto
  next
    case False
    show ?thesis
    proof (cases "run_engine_sequence ld pr ev s")
      case (Inl x)
      from Cons.prems have "(Some x, ev) = (err, ev')"
        by (simp only: dataset_loop_raise [OF False Inl])
      then show ?thesis by auto
    next
      case (Inr res)
      obtain rows e' where res: "run_engine_sequence ld pr ev s = Inr (rows, e')"
        using Inr by (cases res) simp
      let ?ev1 = "checkpoint (ev\<lparr> engine := e', predictions_df := predictions_df ev @ rows \<rparr>)"
      from Cons.prems have "dataset_loop ld pr ?ev1 ss = (err, ev')"
        by (simp only: dataset_loop_run [OF False res])
      from Cons.IH [OF this]
      have ih: "resume ev' = resume ev \<and> save ev' = save ev \<and>
          nb_consecutive_frames ev' = nb_consecutive_frames ev \<and>
          set (predictions_df ev @ rows) \<subseteq> set (predictions_df ev') \<and>
          set (map row_sequence_id (predictions_df ev'))
            \<subseteq> set (map row_sequence_id (predictions_df ev @ rows)) \<union> set (map sequence_id ss)"
        by (simp add: checkpoint_fields)
      have "\<forall>r \<in> set rows. row_sequence_id r = sequence_id s"
        using run_engine_sequence_ids res by blast
      with ih show ?thesis by auto
    qed
  qed
qed

text \<open>
  Claim C5. At any point of the dataset loop (after the sequences \<open>pre\<close> have been
  processed without an exception, leaving the evaluator \<open>ev1\<close>), the next sequence \<open>s\<close> is
  skipped when \<open>resume\<close> is set and the prediction table holds a row with its id: the loop
  goes on with the rest from the same evaluator, so neither the engine nor the table is
  touched. Otherwise the sequence runner is called; when it returns, the loop goes on with
  its rows appended to the table, and when it raises, the loop is left with that exception.
  The table tested is the one held at that moment; when the dataset names each sequence id
  once, a sequence id is in it exactly when it was in the table the loop started with.
\<close>

theorem resume_skips_recorded_sequences:
  assumes pre: "dataset_loop ld pr ev pre = (None, ev1)"
  shows "resume ev1 = resume ev \<and>
         (resume ev \<and> sequence_id s \<in> set (map row_sequence_id (predictions_df ev1)) \<longrightarrow>
            dataset_loop ld pr ev (pre @ s # post) = dataset_loop ld pr ev1 post) \<and>
         (\<not> (resume ev \<and> sequence_id s \<in> set (map row_sequence_id (predictions_df ev1))) \<longrightarrow>
            (\<forall>rows e'. run_engine_sequence ld pr ev1 s = Inr (rows, e') \<longrightarrow>
               (\<exists>ev2. predictions_df ev2 = predictions_df ev1 @ rows \<and> engine ev2 = e' \<and>
                      dataset_loop ld pr ev (pre @ s # post) = dataset_loop ld pr ev2 post)) \<and>
            (\<forall>x. run_engine_sequence ld pr ev1 s = Inl x \<longrightarrow>
               dataset_loop ld pr ev (pre @ s # post) = (Some x, ev1))) \<and>
         (distinct (map sequence_id (pre @ [s])) \<longrightarrow>
            (sequence_id s \<in> set (map row_sequence_id (predictions_df ev1))
             \<longleftrightarrow> sequence_id s \<in> set (map row_sequence_id (predictions_df ev))))"
proof -
  have flag: "resume ev1 = resume ev"
    using dataset_loop_invariant [OF pre] by simp
  have step: "dataset_loop ld pr ev (pre @ s # post) = dataset_loop ld pr ev1 (s # post)"
    by (simp add: dataset_loop_append pre)
  have skip: "resume ev \<and> sequence_id s \<in> set (map row_sequence_id (predictions_df ev1)) \<Longrightarrow>
      dataset_loop ld pr ev (pre @ s # post) = dataset_loop ld pr ev1 post"
    using dataset_loop_skip [of ev1 s ld pr post] by (simp only: step flag)
  have run: "\<exists>ev2. predictions_df ev2 = predictions_df ev1 @ rows \<and> engine ev2 = e' \<and>
                 dataset_loop ld pr ev (pre @ s # post) = dataset_loop ld pr ev2 post"
    if "\<not> (resume ev \<and> sequence_id s \<in> set (map row_sequence_id (predictions_df ev1)))"
      and "run_engine_sequence ld pr ev1 s = Inr (rows, e')" for rows e'
  proof -
    let ?ev2 = "checkpoint (ev1\<lparr> engine := e', predictions_df := predictions_df ev1 @ rows \<rparr>)"
    have n: "\<not> (resume ev1 \<and> sequence_id s \<in> set (map row_sequence_id (predictions_df ev1)))"
      using that(1) flag by simp
    have "dataset_loop ld pr ev (pre @ s # post) = dataset_loop ld pr ?ev2 post"
      unfolding step by (rule dataset_loop_run [OF n that(2)])
    then show ?thesis
      by (intro exI [of _ ?ev2]) (simp add: checkpoint_fields)
  qed
  have fail: "dataset_loop ld pr ev (pre @ s # post) = (Some x, ev1)"
    if "\<not> (resume ev \<and> sequence_id s \<in> set (map row_sequence_id (predictions_df ev1)))"
      and "run_engine_sequence ld pr ev1 s = Inl x" for x
  proof -
    have n: "\<not> (resume ev1 \<and> sequence_id s \<in> set (map row_sequence_id (predictions_df ev1)))"
      using that(1) flag by simp
    show ?thesis
      unfolding step by (rule dataset_loop_raise [OF n that(2)])
  qed
  have loaded: "sequence_id s \<in> set (map row_sequence_id (predictions_df ev1))
             \<longleftrightarrow> sequence_id s \<in> set (map row_sequence_id (predictions_df ev))"
    if d: "distinct (map sequence_id (pre @ [s]))"
  proof
    assume "sequence_id s \<in> set (map row_sequence_id (predictions_df ev1))"
    with dataset_loop_invariant [OF pre]
    have "sequence_id s \<in> set (map row_sequence_id (predictions_df ev)) \<union> set (map sequence_id pre)"
      by blast
    moreover from d have "sequence_id s \<notin> set (map sequence_id pre)" by auto
    ultimately show "sequence_id s \<in> set (map row_sequence_id (predictions_df ev))" by blast
  next
    assume "sequence_id s \<in> set (map row_sequence_id (predictions_df ev))"
    moreover have "set (predictions_df ev) \<subseteq> set (predictions_df ev1)"
      using dataset_loop_invariant [OF pre] by simp
    ultimately show "sequence_id s \<in> set (map row_sequence_id (predictions_df ev1))" by auto
  qed
  from flag skip run fail loaded show ?thesis by blast
qed

theorem resume_skips_recorded_sequences_witness:
  "dataset_loop ex_load ex_predict (ex_evaluator\<lparr> predictions_df := ex_rows \<rparr>) [] =
     (None, ex_evaluator\<lparr> predictions_df := ex_rows \<rparr>) \<and>
   sequence_id ex_sequence \<in> set (map row_sequence_id ex_rows) \<and>
   dataset_loop ex_load ex_predict (ex_evaluator\<lparr> predictions_df := ex_rows \<rparr>) [ex_sequence] =
     (None, ex_evaluator\<lparr> predictions_df := ex_rows \<rparr>) \<and>
   sequence_id ex_sequence \<notin> set (map row_sequence_id (predictions_df ex_evaluator)) \<and>
   fst (dataset_loop ex_load ex_predict ex_evaluator [ex_sequence]) = None \<and>
   predictions_df (snd (dataset_loop ex_load ex_predict ex_evaluator [ex_sequence])) = ex_rows"
proof -
  let ?ev = "ex_evaluator\<lparr> predictions_df := ex_rows \<rparr>"
  have p1: "dataset_loop ex_load ex_predict ?ev [] = (None, ?ev)" by simp
  have m1: "resume ?ev \<and> sequence_id ex_sequence \<in> set (map row_sequence_id (predictions_df ?ev))"
    by (simp add: ex_evaluator_def ex_sequence_def ex_rows_def)
  from resume_skips_recorded_sequences [OF p1, of ex_sequence "[]"] m1
  have a: "dataset_loop ex_load ex_predict ?ev [ex_sequence] = (None, ?ev)" by simp
  have p2: "dataset_loop ex_load ex_predict ex_evaluator [] = (None, ex_evaluator)" by simp
  have m2: "\<not> (resume ex_evaluator \<and>
      sequence_id ex_sequence \<in> set (map row_sequence_id (predictions_df ex_evaluator)))"
    by (simp add: ex_evaluator_def)
  from resume_skips_recorded_sequences [OF p2, of ex_sequence "[]"] m2 ex_run
  obtain ev2 where "predictions_df ev2 = predictions_df ex_evaluator @ ex_rows"
    and "dataset_loop ex_load ex_predict ex_evaluator ([] @ [ex_sequence]) =
           dataset_loop ex_load ex_predict ev2 []"
    by blast
  then have b: "fst (dataset_loop ex_load ex_predict ex_evaluator [ex_sequence]) = None \<and>
      predictions_df (snd (dataset_loop ex_load ex_predict ex_evaluator [ex_sequence])) = ex_rows"
    by (simp add: ex_evaluator_def)
  from p1 m1 a m2 b show ?thesis by (simp add: ex_evaluator_def)
qed

lemma engine_outputs_returns:
  assumes "\<And>im. \<exists>pil. ld im = Inr pil" and "\<And>e pil. \<exists>c e'. pr e pil = Inr (c, e')"
  shows "\<exists>outs e'. engine_outputs ld pr ims e = Inr (outs, e')"
proof (induction ims arbitrary: e)
  case Nil
  show ?case by simp
next
  case (Cons im ims)
  from assms(1) obtain pil where l: "ld im = Inr pil" by blast
  from assms(2) obtain c e1 where p: "pr e pil = Inr (c, e1)" by blast
  from Cons.IH obtain outs e2 where "engine_outputs ld pr ims e1 = Inr (outs, e2)" by blast
  with l p show ?case by simp
qed

lemma run_engine_sequence_returns:
  assumes "\<And>im. \<exists>pil. ld im = Inr pil" and "\<And>e pil. \<exists>c e'. pr e pil = Inr (c, e')"
  shows "\<exists>rows e'. run_engine_sequence ld pr ev s = Inr (rows, e') \<and>
                   length rows = length (images s) \<and>
                   (\<forall>r \<in> set rows. row_sequence_id r = sequence_id s)"
proof -
  from engine_outputs_returns [of ld pr, OF assms]
  obtain outs e1 where "engine_outputs ld pr (images s) (engine ev) = Inr (outs, e1)" by blast
  then obtain rows e' where r: "run_engine_sequence ld pr ev s = Inr (rows, e')"
    by (simp add: run_engine_sequence_outputs)
  with run_engine_sequence_length [OF r] run_engine_sequence_ids [OF r] show ?thesis by blast
qed

lemma ex_world_returns:
  "\<exists>rows e'. run_engine_sequence ex_load ex_predict ev s = Inr (rows, e') \<and>
             length rows = length (images s) \<and>
             (\<forall>r \<in> set rows. row_sequence_id r = sequence_id s)"
  by (rule run_engine_sequence_returns) (simp_all add: ex_load_def ex_predict_def)

text \<open>
  Claim C4. With \<open>save\<close> set, the table is to be written whenever its row count crosses
  a multiple of 50. The code tests \<open>len(self.predictions_df) % 50 == 0\<close> after a whole
  sequence has been appended, so a count that jumps over the multiple is missed. Run on
  two sequences of thirty frames, the table grows from 0 to 30 to 60 rows and the loop
  writes no checkpoint at all.
\<close>

theorem no_checkpoint_when_crossing_fifty:
  "save ex_evaluator \<and>
   fst (dataset_loop ex_load ex_predict ex_evaluator [thirty_frames ''A'', thirty_frames ''B'']) = None \<and>
   length (predictions_df (snd (dataset_loop ex_load ex_predict ex_evaluator
      [thirty_frames ''A'', thirty_frames ''B'']))) = 60 \<and>
   checkpoints (snd (dataset_loop ex_load ex_predict ex_evaluator
      [thirty_frames ''A'', thirty_frames ''B''])) = 0 \<and>
   predictions_csv (snd (dataset_loop ex_load ex_predict ex_evaluator
      [thirty_frames ''A'', thirty_frames ''B''])) = None"
proof -
  let ?A = "thirty_frames ''A''" and ?B = "thirty_frames ''B''"
  from ex_world_returns [of ex_evaluator ?A]
  obtain rows1 e1 where r1: "run_engine_sequence ex_load ex_predict ex_evaluator ?A = Inr (rows1, e1)"
    and l1: "length rows1 = 30" and i1: "\<forall>r \<in> set rows1. row_sequence_id r = ''A''"
    by (auto simp: thirty_frames_def)
  let ?ev1 = "ex_evaluator\<lparr> engine := e1, predictions_df := predictions_df ex_evaluator @ rows1 \<rparr>"
  have n1: "\<not> (resume ex_evaluator \<and>
      sequence_id ?A \<in> set (map row_sequence_id (predictions_df ex_evaluator)))"
    by (simp add: ex_evaluator_def)
  have c1: "checkpoint ?ev1 = ?ev1"
    by (simp add: checkpoint_def l1 ex_evaluator_def)
  have s1: "dataset_loop ex_load ex_predict ex_evaluator [?A, ?B] =
            dataset_loop ex_load ex_predict ?ev1 [?B]"
    using dataset_loop_run [OF n1 r1, of "[?B]"] by (simp only: c1)
  from ex_world_returns [of ?ev1 ?B]
  obtain rows2 e2 where r2: "run_engine_sequence ex_load ex_predict ?ev1 ?B = Inr (rows2, e2)"
    and l2: "length rows2 = 30"
    by (auto simp: thirty_frames_def)
  let ?ev2 = "?ev1\<lparr> engine := e2, predictions_df := predictions_df ?ev1 @ rows2 \<rparr>"
  have n2: "\<not> (resume ?ev1 \<and> sequence_id ?B \<in> set (map row_sequence_id (predictions_df ?ev1)))"
    using i1 by (auto simp: ex_evaluator_def thirty_frames_def)
  have c2: "checkpoint ?ev2 = ?ev2"
    by (simp add: checkpoint_def l1 l2 ex_evaluator_def)
  have s2: "dataset_loop ex_load ex_predict ?ev1 [?B] = (None, ?ev2)"
    using dataset_loop_run [OF n2 r2, of "[]"] by (simp only: c2 dataset_loop.simps(1))
  show ?thesis
    unfolding s1 s2 by (simp add: l1 l2 ex_evaluator_def)
qed

section \<open>Properties of compute\_sequence\_level\_metrics\<close>

text \<open>
  The groups handed to the loop are never empty, so the loop returns one entry per sequence
  id, and each entry can be read off the table.
\<close>

lemma sequence_metrics_loop_keys:
  assumes "set ks \<subseteq> set (map row_sequence_id df)"
  shows "sequence_metrics_loop parse
           (map (\<lambda>k. (k, filter (\<lambda>r. row_sequence_id r = k) df)) ks) acc =
         Inr (acc @ map (metric_of_key parse df) ks)"
  using assms
proof (induction ks arbitrary: acc)
  case Nil
  show ?case by simp
next
  case (Cons k ks)
  then have "k \<in> set (map row_sequence_id df)" by simp
  then have "filter (\<lambda>r. row_sequence_id r = k) df \<noteq> []"
    by (auto simp: filter_empty_conv)
  then obtain r rs where g: "filter (\<lambda>r. row_sequence_id r = k) df = r # rs"
    by (cases "filter (\<lambda>r. row_sequence_id r = k) df") auto
  have mk: "metric_of_key parse df k =
      \<lparr> m_sequence_id = k, m_label = row_sequence_label r,
        has_detection = list_ex row_prediction (r # rs),
        detection_delay = group_detection_delay parse (r # rs) \<rparr>"
    by (simp add: metric_of_key_def group_label_def g)
  from Cons.prems have "set ks \<subseteq> set (map row_sequence_id df)" by simp
  from Cons.IH [OF this] show ?case
    by (simp add: g mk)
qed

lemma sequence_metrics_of_table:
  "sequence_metrics_loop parse (groupby_sequence_id df) [] =
     Inr (map (metric_of_key parse df) (sort (remdups (map row_sequence_id df))))"
  unfolding groupby_sequence_id_def
  by (subst sequence_metrics_loop_keys) simp_all

lemma fold_min_Min: "fold min ds (d::int) = Min (set (d # ds))"
  by (rule Min.set_eq_fold [symmetric])

lemma series_min_cases:
  "series_min xs =
     (if parsed_values xs = [] then NaT else Timedelta (Min (set (parsed_values xs))))"
proof (cases "parsed_values xs")
  case Nil
  then show ?thesis by (simp add: series_min_def)
next
  case (Cons d ds)
  have "series_min xs = Timedelta (fold min ds d)"
    by (simp add: series_min_def Cons)
  also have "\<dots> = Timedelta (Min (set (parsed_values xs)))"
    by (simp only: fold_min_Min Cons)
  finally show ?thesis by (simp add: Cons)
qed

lemma group_positive_rows:
  "filter row_prediction (filter (\<lambda>r. row_sequence_id r = sid) df) =
     filter (\<lambda>r. row_sequence_id r = sid \<and> row_prediction r) df"
  by (simp add: conj_commute)

lemma detection_delay_of_key:
  "detection_delay (metric_of_key parse df sid) =
     (if filter (\<lambda>r. row_sequence_id r = sid \<and> row_prediction r) df = [] then PyNone
      else if positive_timedeltas parse df sid = [] then NaT
      else Timedelta (Min (set (positive_timedeltas parse df sid))))"
  by (simp add: metric_of_key_def group_detection_delay_def group_positive_rows
      series_min_cases positive_timedeltas_def Let_def)

lemma has_detection_of_key:
  "has_detection (metric_of_key parse df sid) =
     (filter (\<lambda>r. row_sequence_id r = sid \<and> row_prediction r) df \<noteq> [])"
  by (auto simp: metric_of_key_def list_ex_iff filter_empty_conv)

lemma positive_timedeltas_need_positive:
  "filter (\<lambda>r. row_sequence_id r = sid \<and> row_prediction r) df = [] \<Longrightarrow>
   positive_timedeltas parse df sid = []"
  by (simp add: positive_timedeltas_def)

lemma ex_keys: "sort (remdups (map row_sequence_id ex_table)) = [''S'', ''T'']"
  by (simp add: ex_table_def ex_row_def)

lemma ex_positive_S:
  "positive_timedeltas ex_parse ex_table ''S'' = [5000000000, 2000000000, 9000000000]"
  by (simp add: positive_timedeltas_def ex_table_def ex_row_def ex_parse_def)

lemma ex_positive_T: "positive_timedeltas ex_parse ex_table ''T'' = []"
  by (simp add: positive_timedeltas_def ex_table_def ex_row_def ex_parse_def)

lemma ex_metrics:
  "sequence_metrics_loop ex_parse (groupby_sequence_id ex_table) [] =
     Inr [\<lparr> m_sequence_id = ''S'', m_label = True, has_detection = True,
             detection_delay = Timedelta 2000000000 \<rparr>,
          \<lparr> m_sequence_id = ''T'', m_label = False, has_detection = False,
             detection_delay = PyNone \<rparr>]"
  by (simp add: groupby_sequence_id_def ex_keys)
     (simp add: ex_table_def ex_row_def ex_parse_def group_detection_delay_def series_min_def)

text \<open>
  Claim C6. The loop over the groups returns one entry per sequence id of the table. For
  a group without a positive prediction the detection delay is \<open>None\<close>; for a group with
  positive predictions it is the least timedelta among its positive rows that parses,
  and \<open>NaT\<close> (missing) when none of them parses. Parsing never raises: a value that
  does not parse is dropped from the minimum.
\<close>

theorem detection_delay_is_earliest_alert:
  "\<exists>sms. sequence_metrics_loop parse (groupby_sequence_id df) [] = Inr sms \<and>
     map m_sequence_id sms = sort (remdups (map row_sequence_id df)) \<and>
     (\<forall>m \<in> set sms.
        (filter (\<lambda>r. row_sequence_id r = m_sequence_id m \<and> row_prediction r) df = [] \<longrightarrow>
           detection_delay m = PyNone) \<and>
        (filter (\<lambda>r. row_sequence_id r = m_sequence_id m \<and> row_prediction r) df \<noteq> [] \<and>
         positive_timedeltas parse df (m_sequence_id m) = [] \<longrightarrow>
           detection_delay m = NaT) \<and>
        (positive_timedeltas parse df (m_sequence_id m) \<noteq> [] \<longrightarrow>
           detection_delay m = Timedelta (Min (set (positive_timedeltas parse df (m_sequence_id m))))))"
proof -
  let ?ks = "sort (remdups (map row_sequence_id df))"
  let ?sms = "map (metric_of_key parse df) ?ks"
  have ids: "map m_sequence_id ?sms = ?ks"
    by (simp add: metric_of_key_def comp_def)
  have each: "\<forall>m \<in> set ?sms.
        (filter (\<lambda>r. row_sequence_id r = m_sequence_id m \<and> row_prediction r) df = [] \<longrightarrow>
           detection_delay m = PyNone) \<and>
        (filter (\<lambda>r. row_sequence_id r = m_sequence_id m \<and> row_prediction r) df \<noteq> [] \<and>
         positive_timedeltas parse df (m_sequence_id m) = [] \<longrightarrow>
           detection_delay m = NaT) \<and>
        (positive_timedeltas parse df (m_sequence_id m) \<noteq> [] \<longrightarrow>
           detection_delay m = Timedelta (Min (set (positive_timedeltas parse df (m_sequence_id m)))))"
  proof
    fix m assume "m \<in> set ?sms"
    then obtain k where m: "m = metric_of_key parse df k" by auto
    have k: "m_sequence_id m = k" by (simp add: m metric_of_key_def)
    show "(filter (\<lambda>r. row_sequence_id r = m_sequence_id m \<and> row_prediction r) df = [] \<longrightarrow>
           detection_delay m = PyNone) \<and>
        (filter (\<lambda>r. row_sequence_id r = m_sequence_id m \<and> row_prediction r) df \<noteq> [] \<and>
         positive_timedeltas parse df (m_sequence_id m) = [] \<longrightarrow>
           detection_delay m = NaT) \<and>
        (positive_timedeltas parse df (m_sequence_id m) \<noteq> [] \<longrightarrow>
           detection_delay m = Timedelta (Min (set (positive_timedeltas parse df (m_sequence_id m)))))"
      unfolding k unfolding m
      using positive_timedeltas_need_positive [of k df parse]
      by (auto simp: detection_delay_of_key)
  qed
  from sequence_metrics_of_table [of parse df] ids each show ?thesis by blast
qed

theorem detection_delay_is_earliest_alert_witness:
  "sequence_metrics_loop ex_parse (groupby_sequence_id ex_table) [] =
     Inr [\<lparr> m_sequence_id = ''S'', m_label = True, has_detection = True,
             detection_delay = Timedelta 2000000000 \<rparr>,
          \<lparr> m_sequence_id = ''T'', m_label = False, has_detection = False,
             detection_delay = PyNone \<rparr>] \<and>
   positive_timedeltas ex_parse ex_table ''S'' = [5000000000, 2000000000, 9000000000] \<and>
   Min (set (positive_timedeltas ex_parse ex_table ''S'')) = 2000000000 \<and>
   positive_timedeltas ex_parse ex_table ''T'' = []"
  using detection_delay_is_earliest_alert [of ex_parse ex_table] ex_metrics ex_positive_S
    ex_positive_T
  by simp

lemma label_of_key: "m_label (metric_of_key parse df sid) = group_label df sid"
  by (simp add: metric_of_key_def)

lemma id_of_key: "m_sequence_id (metric_of_key parse df sid) = sid"
  by (simp add: metric_of_key_def)

lemma all_isnull_dropna: "list_all isnull xs \<longleftrightarrow> dropna xs = []"
  by (induction xs rule: dropna.induct) simp_all

lemma true_positive_column:
  "dropna (map detection_delay
     (filter (\<lambda>m. m_label m = True \<and> has_detection m = True) (map (metric_of_key parse df) ks))) =
   map (\<lambda>sid. Min (set (positive_timedeltas parse df sid)))
     (filter (\<lambda>sid. group_label df sid \<and> positive_timedeltas parse df sid \<noteq> []) ks)"
proof (induction ks)
  case Nil
  show ?case by simp
next
  case (Cons k ks)
  show ?case
    using Cons.IH positive_timedeltas_need_positive [of k df parse]
    by (auto simp: label_of_key has_detection_of_key detection_delay_of_key)
qed

lemma compute_sequence_level_metrics_returns:
  assumes "df \<noteq> []"
  obtains snap where
    "compute_sequence_level_metrics parse cm df = Inr snap"
    "avg_detection_delay snap =
       (let delays = map detection_delay
              (filter (\<lambda>m. m_label m = True \<and> has_detection m = True)
                 (map (metric_of_key parse df) (sort (remdups (map row_sequence_id df)))))
        in if \<not> list_all isnull delays then Some (mean (dropna delays)) else None)"
    "pred_tp (predictions snap) = map m_sequence_id
       (filter (\<lambda>m. m_label m = True \<and> has_detection m = True)
          (map (metric_of_key parse df) (sort (remdups (map row_sequence_id df)))))"
    "pred_fn (predictions snap) = map m_sequence_id
       (filter (\<lambda>m. m_label m = True \<and> has_detection m = False)
          (map (metric_of_key parse df) (sort (remdups (map row_sequence_id df)))))"
    "pred_fp (predictions snap) = map m_sequence_id
       (filter (\<lambda>m. m_label m = False \<and> has_detection m = True)
          (map (metric_of_key parse df) (sort (remdups (map row_sequence_id df)))))"
    "pred_tn (predictions snap) = map m_sequence_id
       (filter (\<lambda>m. m_label m = False \<and> has_detection m = False)
          (map (metric_of_key parse df) (sort (remdups (map row_sequence_id df)))))"
proof -
  let ?sms = "map (metric_of_key parse df) (sort (remdups (map row_sequence_id df)))"
  let ?tp = "filter (\<lambda>m. m_label m = True \<and> has_detection m = True) ?sms"
  let ?fn = "filter (\<lambda>m. m_label m = True \<and> has_detection m = False) ?sms"
  let ?fp = "filter (\<lambda>m. m_label m = False \<and> has_detection m = True) ?sms"
  let ?tn = "filter (\<lambda>m. m_label m = False \<and> has_detection m = False) ?sms"
  from assms have "set (sort (remdups (map row_sequence_id df))) \<noteq> {}" by simp
  then have ne: "sort (remdups (map row_sequence_id df)) \<noteq> []"
    by (simp del: set_sort set_remdups set_map)
  obtain p r f where cm: "cm (length ?fp) (length ?tp) (length ?fn) = (p, r, f)"
    by (rule prod_cases3)
  have eq: "compute_sequence_level_metrics parse cm df =
      Inr \<lparr> precision = p, recall = r, f1 = f,
            tp = length ?tp, fp = length ?fp, fn = length ?fn, tn = length ?tn,
            avg_detection_delay =
              (if \<not> list_all isnull (map detection_delay ?tp)
               then Some (mean (dropna (map detection_delay ?tp))) else None),
            predictions =
              \<lparr> pred_tp = map m_sequence_id ?tp, pred_fn = map m_sequence_id ?fn,
                pred_fp = map m_sequence_id ?fp, pred_tn = map m_sequence_id ?tn \<rparr> \<rparr>"
    using cm ne
    by (simp add: compute_sequence_level_metrics_def sequence_metrics_of_table Let_def)
  show ?thesis
    by (rule that [OF eq]) (simp_all add: Let_def)
qed

lemma ex_snapshot:
  "compute_sequence_level_metrics ex_parse ex_compute_metrics ex_table =
     Inr \<lparr> precision = 1, recall = 1, f1 = 1, tp = 1, fp = 0, fn = 0, tn = 1,
           avg_detection_delay = Some 2000000000,
           predictions = \<lparr> pred_tp = [''S''], pred_fn = [], pred_fp = [], pred_tn = [''T''] \<rparr> \<rparr>"
  by (simp add: compute_sequence_level_metrics_def ex_metrics ex_compute_metrics_def mean_def)

lemma ex_true_positive_delays: "true_positive_delays ex_parse ex_table = [2000000000]"
  by (simp add: true_positive_delays_def ex_keys ex_positive_S ex_positive_T)
     (simp add: group_label_def ex_table_def ex_row_def)

text \<open>
  Claim C7. On a table with at least one row, the snapshot's \<open>avg_detection_delay\<close> is the
  mean of the detection delays of the true-positive sequences that have a usable delay
  (label true, at least one positive prediction with a timedelta that parses); when
  there is no such sequence the field holds \<open>None\<close>, not zero.
\<close>

theorem avg_detection_delay_over_true_positives:
  assumes "df \<noteq> []"
  shows "\<exists>snap. compute_sequence_level_metrics parse cm df = Inr snap \<and>
           avg_detection_delay snap =
             (if true_positive_delays parse df = [] then None
              else Some (real_of_int (sum_list (true_positive_delays parse df)) /
                         real (length (true_positive_delays parse df))))"
proof -
  from assms obtain snap where
    r: "compute_sequence_level_metrics parse cm df = Inr snap" and
    a: "avg_detection_delay snap =
       (let delays = map detection_delay
              (filter (\<lambda>m. m_label m = True \<and> has_detection m = True)
                 (map (metric_of_key parse df) (sort (remdups (map row_sequence_id df)))))
        in if \<not> list_all isnull delays then Some (mean (dropna delays)) else None)"
    by (rule compute_sequence_level_metrics_returns)
  have "avg_detection_delay snap =
      (if true_positive_delays parse df = [] then None
       else Some (mean (true_positive_delays parse df)))"
    unfolding a Let_def all_isnull_dropna true_positive_column true_positive_delays_def
    by simp
  with r show ?thesis by (auto simp: mean_def)
qed

theorem avg_detection_delay_over_true_positives_witness:
  "ex_table \<noteq> [] \<and>
   true_positive_delays ex_parse ex_table = [2000000000] \<and>
   compute_sequence_level_metrics ex_parse ex_compute_metrics ex_table =
     Inr \<lparr> precision = 1, recall = 1, f1 = 1, tp = 1, fp = 0, fn = 0, tn = 1,
           avg_detection_delay = Some 2000000000,
           predictions = \<lparr> pred_tp = [''S''], pred_fn = [], pred_fp = [], pred_tn = [''T''] \<rparr> \<rparr>"
proof -
  have ne: "ex_table \<noteq> []" by (simp add: ex_table_def)
  from avg_detection_delay_over_true_positives [OF ne, of ex_parse ex_compute_metrics]
    ne ex_snapshot ex_true_positive_delays
  show ?thesis by simp
qed

lemma count_four_buckets:
  "count_list (map m_sequence_id (filter (\<lambda>m. m_label m = True \<and> has_detection m = True) ms) @
               map m_sequence_id (filter (\<lambda>m. m_label m = True \<and> has_detection m = False) ms) @
               map m_sequence_id (filter (\<lambda>m. m_label m = False \<and> has_detection m = True) ms) @
               map m_sequence_id (filter (\<lambda>m. m_label m = False \<and> has_detection m = False) ms)) k =
   count_list (map m_sequence_id ms) k"
  by (induction ms) auto

lemma count_list_distinct: "distinct xs \<Longrightarrow> x \<in> set xs \<Longrightarrow> count_list xs x = 1"
  by (induction xs) auto

text \<open>
  Claim C8. For every sequence id that appears in the table, the metrics are computed and
  the id occurs exactly once in the four lists \<open>tp\<close>, \<open>fn\<close>, \<open>fp\<close>, \<open>tn\<close> taken together; the
  four lists hold the ids of the table and nothing else.
\<close>

theorem sequence_buckets_partition:
  "\<forall>sid \<in> set (map row_sequence_id df).
     \<exists>snap. compute_sequence_level_metrics parse cm df = Inr snap \<and>
       count_list (pred_tp (predictions snap) @ pred_fn (predictions snap) @
                   pred_fp (predictions snap) @ pred_tn (predictions snap)) sid = 1 \<and>
       set (pred_tp (predictions snap) @ pred_fn (predictions snap) @
            pred_fp (predictions snap) @ pred_tn (predictions snap))
         = set (map row_sequence_id df)"
proof
  fix sid assume sid: "sid \<in> set (map row_sequence_id df)"
  then have "df \<noteq> []" by auto
  then obtain snap where
    r: "compute_sequence_level_metrics parse cm df = Inr snap" and
    tp: "pred_tp (predictions snap) = map m_sequence_id
       (filter (\<lambda>m. m_label m = True \<and> has_detection m = True)
          (map (metric_of_key parse df) (sort (remdups (map row_sequence_id df)))))" and
    fn: "pred_fn (predictions snap) = map m_sequence_id
       (filter (\<lambda>m. m_label m = True \<and> has_detection m = False)
          (map (metric_of_key parse df) (sort (remdups (map row_sequence_id df)))))" and
    fp: "pred_fp (predictions snap) = map m_sequence_id
       (filter (\<lambda>m. m_label m = False \<and> has_detection m = True)
          (map (metric_of_key parse df) (sort (remdups (map row_sequence_id df)))))" and
    tn: "pred_tn (predictions snap) = map m_sequence_id
       (filter (\<lambda>m. m_label m = False \<and> has_detection m = False)
          (map (metric_of_key parse df) (sort (remdups (map row_sequence_id df)))))"
    by (rule compute_sequence_level_metrics_returns)
  let ?ks = "sort (remdups (map row_sequence_id df))"
  let ?all = "pred_tp (predictions snap) @ pred_fn (predictions snap) @
              pred_fp (predictions snap) @ pred_tn (predictions snap)"
  have ids: "map m_sequence_id (map (metric_of_key parse df) ?ks) = ?ks"
    by (simp add: id_of_key comp_def)
  have cnt: "count_list ?all k = count_list ?ks k" for k
    unfolding tp fn fp tn count_four_buckets ids ..
  have "distinct ?ks" by simp
  moreover from sid have "sid \<in> set ?ks" by simp
  ultimately have one: "count_list ?all sid = 1"
    unfolding cnt by (rule count_list_distinct)
  have "set ?all = set ?ks"
  proof (rule set_eqI)
    fix k
    have "k \<in> set ?all \<longleftrightarrow> count_list ?all k \<noteq> 0" by (simp add: count_list_0_iff)
    also have "\<dots> \<longleftrightarrow> count_list ?ks k \<noteq> 0" by (simp only: cnt)
    also have "\<dots> \<longleftrightarrow> k \<in> set ?ks" by (simp add: count_list_0_iff)
    finally show "k \<in> set ?all \<longleftrightarrow> k \<in> set ?ks" .
  qed
  then have "set ?all = set (map row_sequence_id df)" by simp
  with r one show "\<exists>snap. compute_sequence_level_metrics parse cm df = Inr snap \<and>
       count_list (pred_tp (predictions snap) @ pred_fn (predictions snap) @
                   pred_fp (predictions snap) @ pred_tn (predictions snap)) sid = 1 \<and>
       set (pred_tp (predictions snap) @ pred_fn (predictions snap) @
            pred_fp (predictions snap) @ pred_tn (predictions snap))
         = set (map row_sequence_id df)"
    by blast
qed

theorem sequence_buckets_partition_witness:
  "''S'' \<in> set (map row_sequence_id ex_table) \<and>
   ''T'' \<in> set (map row_sequence_id ex_table) \<and>
   compute_sequence_level_metrics ex_parse ex_compute_metrics ex_table =
     Inr \<lparr> precision = 1, recall = 1, f1 = 1, tp = 1, fp = 0, fn = 0, tn = 1,
           avg_detection_delay = Some 2000000000,
           predictions = \<lparr> pred_tp = [''S''], pred_fn = [], pred_fp = [], pred_tn = [''T''] \<rparr> \<rparr> \<and>
   count_list ([''S''] @ [] @ [] @ [''T'']) ''S'' = 1 \<and>
   count_list ([''S''] @ [] @ [] @ [''T'']) ''T'' = 1"
proof -
  have s: "''S'' \<in> set (map row_sequence_id ex_table)"
    and t: "''T'' \<in> set (map row_sequence_id ex_table)"
    by (simp_all add: ex_table_def ex_row_def)
  from sequence_buckets_partition [of ex_table ex_parse ex_compute_metrics] s t ex_snapshot
  show ?thesis by simp
qed

section \<open>Properties of Model.inference and Model.load\_model\<close>

lemma ex_load_image: "ex_load (ex_image ''a.jpg'' 0) = Inr ''a.jpg''"
  by (simp add: ex_load_def ex_image_def)

lemma failing_model_raises:
  "(if format failing_model = Some ''onnx'' then call_model failing_model ''a.jpg''
    else predict_model failing_model ''a.jpg'') = Inl (RuntimeError ''session failed'')"
  by (simp add: failing_model_def call_model_def)

text \<open>
  Claim C9. When the image loads and the model call of \<open>inference\<close> raises an exception
  (any instance of \<open>Exception\<close>), \<open>inference\<close> returns the empty prediction list and adds one
  entry to the error log; the exception does not leave the method.
\<close>

theorem inference_recovers_from_model_failure:
  assumes "ld img = Inr pil_image"
    and "(if format m = Some ''onnx'' then call_model m pil_image
          else predict_model m pil_image) = Inl e"
    and "isinstance_Exception e"
  shows "\<exists>entry. inference ld m img logged = (Inr [], logged @ [entry])"
  using assms by (auto simp: inference_def split: if_splits)

theorem inference_recovers_from_model_failure_witness:
  "ex_load (ex_image ''a.jpg'' 0) = Inr ''a.jpg'' \<and>
   call_model failing_model ''a.jpg'' = Inl (RuntimeError ''session failed'') \<and>
   isinstance_Exception (RuntimeError ''session failed'') \<and>
   inference ex_load failing_model (ex_image ''a.jpg'' 0) [] =
     (Inr [], [''Onnx inference failed on a.jpg''])"
proof -
  have e: "isinstance_Exception (RuntimeError ''session failed'')" by simp
  from inference_recovers_from_model_failure
    [of ex_load "ex_image ''a.jpg'' 0" "''a.jpg''" failing_model
        "RuntimeError ''session failed''" "[]", OF ex_load_image failing_model_raises e]
  obtain entry where
    "inference ex_load failing_model (ex_image ''a.jpg'' 0) [] = (Inr [], [] @ [entry])" ..
  moreover have "snd (inference ex_load failing_model (ex_image ''a.jpg'' 0) []) =
      [''Onnx inference failed on a.jpg'']"
    by (simp add: inference_def ex_load_def ex_image_def failing_model_def call_model_def)
  ultimately show ?thesis
    using ex_load_image failing_model_raises
    by (simp add: failing_model_def call_model_def)
qed

text \<open>
  Claim C10 says that every model path that is not an existing local file makes
  \<open>load_model\<close> raise \<open>FileNotFoundError\<close>. Two inputs show otherwise: the empty path, and a
  Hugging Face path on a machine without a token; both raise \<open>ValueError\<close>.
\<close>

theorem load_model_raises_other_errors:
  "\<not> isfile offline_world '''' \<and>
   fst (load_model offline_world (model_at [])) =
     Inl (ValueError ''No model provided for evaluation, path needs to be specified.'') \<and>
   \<not> isfile offline_world ''https://huggingface.co/org/model'' \<and>
   fst (load_model offline_world (model_at ''https://huggingface.co/org/model'')) =
     Inl (ValueError ''Error : no Hugging Face token found.'')"
  by (simp add: load_model_def load_HF_def offline_world_def model_at_def)

lemma hub_repo: "split_last ''https://huggingface.co/'' ''https://huggingface.co/org/model'' = ''org/model''"
  by code_simp

lemma hub_file: "basename ''org/model'' = ''model''"
  by code_simp

lemma hub_load_HF:
  "fst (load_HF hub_world (model_at ''https://huggingface.co/org/model'')) = Inr some_model"
  by (simp add: load_HF_def hub_world_def model_at_def hub_repo hub_file Let_def)

lemma hub_path_contains: "contains ''huggingface.co'' ''https://huggingface.co/org/model''"
  by code_simp

lemma local_path_contains: "\<not> contains ''huggingface.co'' ''missing.pt''"
  by code_simp

lemma weights_extension:
  "\<not> endswith ''weights.bin'' ''.onnx'' \<and> \<not> endswith ''weights.bin'' ''.pt''"
  by code_simp

text \<open>
  Claim C10, amended. An empty or missing path raises \<open>ValueError\<close>. A non-empty path that
  is not an existing file always raises, and never returns a model: \<open>FileNotFoundError\<close> when
  the path does not contain \<open>huggingface.co\<close>; when it does, the exception of \<open>load_HF\<close> if
  that raises, and \<open>FileNotFoundError\<close> otherwise, the model \<open>load_HF\<close> returned being
  dropped. An existing file whose name ends in neither \<open>.onnx\<close> nor \<open>.pt\<close> makes
  \<open>load_model\<close> return \<open>None\<close> and leaves the object unchanged.
\<close>

theorem load_model_outcomes:
  "(model_path m = None \<or> model_path m = Some [] \<longrightarrow>
      fst (load_model w m) =
        Inl (ValueError ''No model provided for evaluation, path needs to be specified.'')) \<and>
   (\<forall>p. model_path m = Some p \<and> p \<noteq> [] \<and> \<not> isfile w p \<longrightarrow>
      (\<exists>e. fst (load_model w m) = Inl e) \<and>
      (\<not> contains ''huggingface.co'' p \<longrightarrow>
         fst (load_model w m) = Inl (FileNotFoundError (''Model file not found: '' @ p))) \<and>
      (contains ''huggingface.co'' p \<longrightarrow>
         fst (load_model w m) =
           (case fst (load_HF w m) of
              Inl e \<Rightarrow> Inl e
            | Inr mdl \<Rightarrow> Inl (FileNotFoundError (''Model file not found: '' @ p))))) \<and>
   (\<forall>p. model_path m = Some p \<and> p \<noteq> [] \<and> isfile w p \<and>
        \<not> endswith p ''.onnx'' \<and> \<not> endswith p ''.pt'' \<longrightarrow>
      load_model w m = (Inr None, m))"
proof (intro conjI allI impI)
  assume "model_path m = None \<or> model_path m = Some []"
  then show "fst (load_model w m) =
        Inl (ValueError ''No model provided for evaluation, path needs to be specified.'')"
    by (auto simp: load_model_def)
next
  fix p assume a: "model_path m = Some p \<and> p \<noteq> [] \<and> \<not> isfile w p"
  obtain r m' where hf: "load_HF w m = (r, m')" by (cases "load_HF w m")
  from a hf show "\<exists>e. fst (load_model w m) = Inl e"
    by (cases r) (simp_all add: load_model_def)
  from a show "fst (load_model w m) = Inl (FileNotFoundError (''Model file not found: '' @ p))"
    if "\<not> contains ''huggingface.co'' p"
    using that by (simp add: load_model_def)
  from a hf show "fst (load_model w m) =
           (case fst (load_HF w m) of
              Inl e \<Rightarrow> Inl e
            | Inr mdl \<Rightarrow> Inl (FileNotFoundError (''Model file not found: '' @ p)))"
    if "contains ''huggingface.co'' p"
    using that by (cases r) (simp_all add: load_model_def)
next
  fix p assume "model_path m = Some p \<and> p \<noteq> [] \<and> isfile w p \<and>
        \<not> endswith p ''.onnx'' \<and> \<not> endswith p ''.pt''"
  then show "load_model w m = (Inr None, m)"
    by (simp add: load_model_def)
qed

theorem load_model_outcomes_witness:
  "fst (load_model offline_world (model_at [])) =
     Inl (ValueError ''No model provided for evaluation, path needs to be specified.'') \<and>
   \<not> isfile offline_world ''missing.pt'' \<and>
   fst (load_model offline_world (model_at ''missing.pt'')) =
     Inl (FileNotFoundError ''Model file not found: missing.pt'') \<and>
   \<not> isfile hub_world ''https://huggingface.co/org/model'' \<and>
   fst (load_HF hub_world (model_at ''https://huggingface.co/org/model'')) = Inr some_model \<and>
   fst (load_model hub_world (model_at ''https://huggingface.co/org/model'')) =
     Inl (FileNotFoundError ''Model file not found: https://huggingface.co/org/model'') \<and>
   isfile hub_world ''weights.bin'' \<and>
   load_model hub_world (model_at ''weights.bin'') = (Inr None, model_at ''weights.bin'')"
proof -
  note empty_path = load_model_outcomes [THEN conjunct1, rule_format]
  note missing = load_model_outcomes [THEN conjunct2, THEN conjunct1, rule_format]
  note other = load_model_outcomes [THEN conjunct2, THEN conjunct2, rule_format]
  have a: "fst (load_model offline_world (model_at [])) =
      Inl (ValueError ''No model provided for evaluation, path needs to be specified.'')"
    by (rule empty_path) (simp add: model_at_def)
  have p1: "model_path (model_at ''missing.pt'') = Some ''missing.pt'' \<and> ''missing.pt'' \<noteq> [] \<and>
      \<not> isfile offline_world ''missing.pt''"
    by (simp add: model_at_def offline_world_def)
  from missing [OF p1] local_path_contains
  have "fst (load_model offline_world (model_at ''missing.pt'')) =
      Inl (FileNotFoundError (''Model file not found: '' @ ''missing.pt''))"
    by blast
  then have b: "fst (load_model offline_world (model_at ''missing.pt'')) =
      Inl (FileNotFoundError ''Model file not found: missing.pt'')"
    by simp
  have p2: "model_path (model_at ''https://huggingface.co/org/model'') =
        Some ''https://huggingface.co/org/model'' \<and>
      ''https://huggingface.co/org/model'' \<noteq> [] \<and>
      \<not> isfile hub_world ''https://huggingface.co/org/model''"
    by (simp add: model_at_def hub_world_def)
  from missing [OF p2] hub_path_contains
  have "fst (load_model hub_world (model_at ''https://huggingface.co/org/model'')) =
      (case fst (load_HF hub_world (model_at ''https://huggingface.co/org/model'')) of
         Inl e \<Rightarrow> Inl e
       | Inr mdl \<Rightarrow> Inl (FileNotFoundError
           (''Model file not found: '' @ ''https://huggingface.co/org/model'')))"
    by blast
  then have c: "fst (load_model hub_world (model_at ''https://huggingface.co/org/model'')) =
      Inl (FileNotFoundError ''Model file not found: https://huggingface.co/org/model'')"
    by (simp add: hub_load_HF)
  have p3: "model_path (model_at ''weights.bin'') = Some ''weights.bin'' \<and> ''weights.bin'' \<noteq> [] \<and>
      isfile hub_world ''weights.bin'' \<and>
      \<not> endswith ''weights.bin'' ''.onnx'' \<and> \<not> endswith ''weights.bin'' ''.pt''"
    using weights_extension by (simp add: model_at_def hub_world_def)
  have d: "load_model hub_world (model_at ''weights.bin'') = (Inr None, model_at ''weights.bin'')"
    by (rule other [OF p3])
  from a b c d p1 p2 p3 hub_load_HF show ?thesis by blast
qed

end
